theory Spec2Isabelle
  imports Main
begin

section \<open>Python values used by the bot\<close>

text \<open>
  A Python \<open>str\<close> is a sequence of Unicode code points, so a string is modelled as the
  list of its code points.  ASCII literals of the source are written with \<open>ascii\<close>.
\<close>

type_synonym pystr = "nat list"

definition ascii :: "string \<Rightarrow> pystr" where
  "ascii s = map of_char s"

text \<open>
  The characters that \<open>str.split()\<close> and \<open>str.strip()\<close> treat as whitespace
  (the code points for which \<open>str.isspace\<close> holds).
\<close>

definition is_space :: "nat \<Rightarrow> bool" where
  "is_space c \<longleftrightarrow>
     (9 \<le> c \<and> c \<le> 13) \<or> (28 \<le> c \<and> c \<le> 32) \<or> c = 133 \<or> c = 160 \<or> c = 5760 \<or>
     (8192 \<le> c \<and> c \<le> 8202) \<or> c = 8232 \<or> c = 8233 \<or> c = 8239 \<or> c = 8287 \<or> c = 12288"

text \<open>\<open>s.split()\<close>: the maximal runs of non-whitespace characters, in order.\<close>

fun split_from :: "pystr \<Rightarrow> pystr \<Rightarrow> pystr list" where
  "split_from cur [] = (if cur = [] then [] else [cur])"
| "split_from cur (c # cs) =
     (if is_space c then (if cur = [] then [] else [cur]) @ split_from [] cs
      else split_from (cur @ [c]) cs)"

definition py_split :: "pystr \<Rightarrow> pystr list" where
  "py_split s = split_from [] s"

text \<open>\<open>s.strip()\<close>: whitespace removed at both ends.\<close>

definition py_strip :: "pystr \<Rightarrow> pystr" where
  "py_strip s = rev (dropWhile is_space (rev (dropWhile is_space s)))"

text \<open>
  \<open>s.replace(old, new)\<close>: the occurrences of \<open>old\<close> are found scanning from the left,
  each one is replaced and the scan goes on behind it.  For an empty \<open>old\<close> Python puts
  \<open>new\<close> in front of every character and at the end.
\<close>

function replace_scan :: "'a list \<Rightarrow> 'a list \<Rightarrow> 'a list \<Rightarrow> 'a list" where
  "replace_scan old new [] = []"
| "replace_scan old new (c # cs) =
     (if take (length old) (c # cs) = old
      then new @ replace_scan old new (drop (length old - 1) cs)
      else c # replace_scan old new cs)"
  by pat_completeness auto
termination
  by (relation "measure (\<lambda>(old, new, s). length s)") auto

definition py_replace :: "'a list \<Rightarrow> 'a list \<Rightarrow> 'a list \<Rightarrow> 'a list" where
  "py_replace s old new =
     (if old = [] then new @ concat (map (\<lambda>c. c # new) s) else replace_scan old new s)"

text \<open>\<open>sep.join(xs)\<close>.\<close>

fun py_join :: "'a list \<Rightarrow> 'a list list \<Rightarrow> 'a list" where
  "py_join sep [] = []"
| "py_join sep [x] = x"
| "py_join sep (x # y # ys) = x @ sep @ py_join sep (y # ys)"

text \<open>\<open>str(n)\<close> for an integer: its decimal digits, with a minus sign when negative.\<close>

function decimal :: "nat \<Rightarrow> pystr" where
  "decimal n = (if n < 10 then [48 + n] else decimal (n div 10) @ [48 + n mod 10])"
  by pat_completeness auto
termination
  by (relation "measure id") auto

declare decimal.simps [simp del]

definition str_int :: "int \<Rightarrow> pystr" where
  "str_int i = (if i < 0 then 45 # decimal (nat (- i)) else decimal (nat i))"

text \<open>
  The handlers pass the numeric id of the sender, the daily job passes a key of
  \<open>users\<close>, which is a string already; \<open>str\<close> is applied to either.
\<close>

datatype pyval = PyInt int | PyStr pystr

fun py_str :: "pyval \<Rightarrow> pystr" where
  "py_str (PyInt i) = str_int i"
| "py_str (PyStr s) = s"

text \<open>\<open>xs[-n:]\<close>: the last \<open>n\<close> elements, all of them when there are fewer.\<close>

definition last_n :: "nat \<Rightarrow> 'a list \<Rightarrow> 'a list" where
  "last_n n xs = drop (length xs - n) xs"

subsection \<open>Dictionaries\<close>

text \<open>
  A \<open>dict\<close> keeps its keys in insertion order and \<open>users.items()\<close> is iterated in that
  order, so a dictionary is an association list.  Assigning to a key that is present keeps
  its position, assigning to a new key puts it last.
\<close>

type_synonym ('k, 'v) dict = "('k \<times> 'v) list"

definition dict_contains :: "('k, 'v) dict \<Rightarrow> 'k \<Rightarrow> bool" where
  "dict_contains d k \<longleftrightarrow> k \<in> set (map fst d)"

definition dict_get :: "('k, 'v) dict \<Rightarrow> 'k \<Rightarrow> 'v \<Rightarrow> 'v" where
  "dict_get d k dflt = (case map_of d k of None \<Rightarrow> dflt | Some v \<Rightarrow> v)"

fun dict_setitem :: "('k, 'v) dict \<Rightarrow> 'k \<Rightarrow> 'v \<Rightarrow> ('k, 'v) dict" where
  "dict_setitem [] k v = [(k, v)]"
| "dict_setitem ((k', v') # d) k v =
     (if k' = k then (k, v) # d else (k', v') # dict_setitem d k v)"

section \<open>The data of the bot\<close>

record report_rec =
  r_text :: pystr
  r_time :: pystr

record task_rec =
  t_title :: pystr
  t_done :: bool
  t_time :: pystr

type_synonym users_doc = "(pystr, pystr) dict"
type_synonym reports_doc = "(pystr, report_rec list) dict"
type_synonym tasks_doc = "(pystr, task_rec list) dict"

section \<open>The files\<close>

text \<open>
  What a file holds, as far as \<open>json.load\<close> can tell: the complete output of
  \<open>json.dump\<close> for a document, a proper prefix of such an output (a write that stopped
  partway; the closing brace is missing, so it does not parse), or any other text that
  does not parse.
\<close>

datatype 'd file_text = Json 'd | Partial 'd | Garbage

text \<open>
  What the next \<open>open(path, "w")\<close> and the writes after it meet: nothing unusual, an
  \<open>open\<close> that is refused (permission denied), or a write that fails after the file was
  opened (disk full).
\<close>

datatype io_condition = Healthy | OpenDenied | WriteFails

datatype error = OSError | KeyError

text \<open>
  The state of one path: its content (\<open>None\<close> when the path does not exist), the
  condition of the device, and a count of the \<open>save_json\<close> calls made on it.
\<close>

record 'd resource =
  content :: "'d file_text option"
  condition :: io_condition
  save_calls :: nat

text \<open>
  \<open>save_json\<close> (lines 35-37) opens the path itself with mode \<open>"w"\<close>, which empties the
  file at once, and dumps into it.  An exception of \<open>open\<close> or of the dump leaves the
  function; the \<open>with\<close> block closes the file with what was written so far.
\<close>

definition save_json :: "'d \<Rightarrow> 'd resource \<Rightarrow> (error + unit) \<times> 'd resource" where
  "save_json data r =
     (case condition r of
        OpenDenied \<Rightarrow> (Inl OSError, r\<lparr>save_calls := Suc (save_calls r)\<rparr>)
      | WriteFails \<Rightarrow>
          (Inl OSError, r\<lparr>content := Some (Partial data), save_calls := Suc (save_calls r)\<rparr>)
      | Healthy \<Rightarrow>
          (Inr (), r\<lparr>content := Some (Json data), save_calls := Suc (save_calls r)\<rparr>))"

text \<open>
  \<open>load_json\<close> (lines 25-33).  The first \<open>save_json\<close> is outside the \<open>try\<close>, the second
  one is inside the \<open>except\<close> clause; an exception of either leaves \<open>load_json\<close>.
\<close>

definition load_json :: "'d \<Rightarrow> 'd resource \<Rightarrow> (error + 'd) \<times> 'd resource" where
  "load_json dflt r =
     (case (case content r of None \<Rightarrow> save_json dflt r | Some _ \<Rightarrow> (Inr (), r)) of
        (Inl e, r1) \<Rightarrow> (Inl e, r1)
      | (Inr _, r1) \<Rightarrow>
          (case content r1 of
             Some (Json d) \<Rightarrow> (Inr d, r1)
           | _ \<Rightarrow>
              (case save_json dflt r1 of
                 (Inl e, r2) \<Rightarrow> (Inl e, r2)
               | (Inr _, r2) \<Rightarrow> (Inr dflt, r2))))"

section \<open>The state of the process\<close>

text \<open>The three global dictionaries and the three files behind them.\<close>

record bot =
  users :: users_doc
  reports :: reports_doc
  tasks :: tasks_doc
  users_file :: "users_doc resource"
  reports_file :: "reports_doc resource"
  tasks_file :: "tasks_doc resource"

text \<open>\<open>d[k]\<close> raises \<open>KeyError\<close> on a missing key.\<close>

definition dict_getitem :: "('k, 'v) dict \<Rightarrow> 'k \<Rightarrow> error + 'v" where
  "dict_getitem d k = (case map_of d k of None \<Rightarrow> Inl KeyError | Some v \<Rightarrow> Inr v)"

definition ensure_user :: "pyval \<Rightarrow> pystr \<Rightarrow> bot \<Rightarrow> (error + unit) \<times> bot" where
  "ensure_user user_id name s =
     (let uid = py_str user_id in
      if \<not> dict_contains (users s) uid then
        (let s1 = s\<lparr>users := dict_setitem (users s) uid name\<rparr>;
             (res, file) = save_json (users s1) (users_file s1)
         in (res, s1\<lparr>users_file := file\<rparr>))
      else (Inr (), s))"

section \<open>Fixed texts\<close>

definition backlog_tip :: pystr where
  \<comment> \<open>line 72; 76 code points\<close>
  "backlog_tip =
    [1670, 1606, 1583, 32, 1578, 1575, 32, 1705, 1575, 1585, 32, 1593, 1602, 1576, 8204,
     1575, 1601, 1578, 1575, 1583, 1607, 32, 1583, 1575, 1585, 1740, 1548, 32, 1662,
     1740, 1588, 1606, 1607, 1575, 1583, 32, 1605, 1740, 8204, 1705, 1606, 1605, 32,
     1601, 1585, 1583, 1575, 32, 1575, 1608, 1604, 32, 1589, 1576, 1581, 32, 1607, 1605,
     1608, 1606, 8204, 1607, 1575, 32, 1585, 1608, 32, 1580, 1605, 1593, 32, 1705, 1606,
     1740, 32, 127793]"

definition low_volume_tip :: pystr where
  \<comment> \<open>line 74; 92 code points\<close>
  "low_volume_tip =
    [1711, 1586, 1575, 1585, 1588, 8204, 1607, 1575, 1578, 32, 1705, 1605, 32, 1576,
     1608, 1583, 32, 1575, 1605, 1585, 1608, 1586, 1563, 32, 1662, 1740, 1588, 1606,
     1607, 1575, 1583, 32, 1605, 1740, 8204, 1705, 1606, 1605, 32, 1670, 1606, 1583, 32,
     1705, 1575, 1585, 32, 1705, 1608, 1670, 1740, 1705, 32, 1607, 1605, 32, 1576, 1606,
     1608, 1740, 1587, 1740, 32, 1578, 1575, 32, 1580, 1585, 1740, 1575, 1606, 32, 1705,
     1575, 1585, 1578, 32, 1605, 1606, 1592, 1605, 8204, 1578, 1585, 32, 1576, 1575,
     1588, 1607, 32, 9889, 65039]"

definition steady_pace_tip :: pystr where
  \<comment> \<open>line 76; 88 code points\<close>
  "steady_pace_tip =
    [1705, 1575, 1585, 1607, 1575, 32, 1605, 1585, 1578, 1576, 32, 1576, 1608, 1583, 33,
     32, 1601, 1602, 1591, 32, 1587, 1593, 1740, 32, 1705, 1606, 32, 1608, 1602, 1601,
     1607, 8204, 1607, 1575, 1740, 32, 1591, 1608, 1604, 1575, 1606, 1740, 32, 1576,
     1740, 1606, 32, 1705, 1575, 1585, 1607, 1575, 32, 1585, 1608, 32, 1705, 1605, 1578,
     1585, 32, 1705, 1606, 1740, 32, 1578, 1575, 32, 1575, 1606, 1585, 1688, 1740, 8204,
     1578, 32, 1576, 1607, 1578, 1585, 32, 1576, 1605, 1608, 1606, 1607, 32, 128170]"

definition report_ack :: pystr where
  \<comment> \<open>line 105; 18 code points\<close>
  "report_ack =
    [1711, 1586, 1575, 1585, 1588, 1578, 32, 1584, 1582, 1740, 1585, 1607, 32, 1588,
     1583, 32, 10004, 65039]"

definition not_found_reply :: pystr where
  \<comment> \<open>line 120; 28 code points\<close>
  "not_found_reply =
    [1705, 1575, 1585, 1576, 1585, 1740, 32, 1576, 1575, 32, 1575, 1740, 1606, 32, 1606,
     1575, 1605, 32, 1662, 1740, 1583, 1575, 32, 1606, 1588, 1583, 32, 10060]"

definition no_reports_reply :: pystr where
  \<comment> \<open>line 125; 22 code points\<close>
  "no_reports_reply =
    [1607, 1740, 1670, 32, 1711, 1586, 1575, 1585, 1588, 1740, 32, 1608, 1580, 1608,
     1583, 32, 1606, 1583, 1575, 1585, 1583, 46]"

definition reports_header :: pystr where
  \<comment> \<open>line 129, the text before {txt}; 17 code points\<close>
  "reports_header =
    [1570, 1582, 1585, 1740, 1606, 32, 1711, 1586, 1575, 1585, 1588, 8204, 1607, 1575,
     58, 10, 10]"

definition task_ack :: pystr where
  \<comment> \<open>line 148; 22 code points\<close>
  "task_ack =
    [1705, 1575, 1585, 32, 1576, 1607, 32, 1604, 1740, 1587, 1578, 32, 1575, 1590, 1575,
     1601, 1607, 32, 1588, 1583, 32, 128221]"

definition summary_head :: pystr where
  \<comment> \<open>line 159, before {name}; 13 code points\<close>
  "summary_head =
    [1582, 1604, 1575, 1589, 1607, 32, 1585, 1608, 1586, 1575, 1606, 1607, 32]"

definition summary_count :: pystr where
  \<comment> \<open>lines 159-160, between {name} and {len(user_reports)}; 19 code points\<close>
  "summary_count =
    [58, 10, 10, 1578, 1593, 1583, 1575, 1583, 32, 1711, 1586, 1575, 1585, 1588, 8204,
     1607, 1575, 58, 32]"

definition summary_pending :: pystr where
  \<comment> \<open>lines 160-161, between the two counts; 20 code points\<close>
  "summary_pending =
    [10, 1705, 1575, 1585, 1607, 1575, 1740, 32, 1593, 1602, 1576, 8204, 1575, 1601,
     1578, 1575, 1583, 1607, 58, 32]"

definition summary_tip :: pystr where
  \<comment> \<open>lines 161-162, between {len(pending)} and {tip}; 17 code points\<close>
  "summary_tip =
    [10, 10, 1662, 1740, 1588, 1606, 1607, 1575, 1583, 32, 1575, 1605, 1585, 1608, 1586,
     58, 10]"

section \<open>Productivity tips\<close>

text \<open>
  \<open>generate_tip\<close> (lines 56-78) reads the global dictionaries \<open>reports\<close> and \<open>tasks\<close>.
  The word count over the last five reports and \<open>idle_time\<close> are computed as in the
  source and, as there, not used by the decision.
\<close>

definition count_word :: "pystr \<Rightarrow> (pystr, nat) dict \<Rightarrow> (pystr, nat) dict" where
  "count_word word repeated = dict_setitem repeated word (dict_get repeated word 0 + 1)"

definition generate_tip :: "bot \<Rightarrow> pyval \<Rightarrow> pystr" where
  "generate_tip s user_id =
     (let uid = py_str user_id;
          user_reports = dict_get (reports s) uid [];
          user_tasks = dict_get (tasks s) uid [];
          pending = filter (\<lambda>t. \<not> t_done t) user_tasks;
          idle_time = (0::nat);
          volume = length user_reports;
          repeated = fold (\<lambda>r. fold count_word (py_split (r_text r)))
                       (last_n 5 user_reports) []
      in if length pending > 3 then backlog_tip
         else if volume < 2 then low_volume_tip
         else steady_pace_tip)"

section \<open>Telegram commands\<close>

text \<open>
  What a handler reads of its \<open>update\<close>: the sender's numeric id and first name, and the
  text of the message.
\<close>

record update =
  from_id :: int
  first_name :: pystr
  msg_text :: pystr

text \<open>
  Lines 96-103 of \<open>report\<close>: the entry is appended to the sender's list in memory, then
  the whole dictionary is saved.  \<open>now\<close> is the clock's \<open>isoformat\<close> string.
\<close>

definition append_report :: "pystr \<Rightarrow> pystr \<Rightarrow> pystr \<Rightarrow> bot \<Rightarrow> (error + unit) \<times> bot" where
  "append_report uid text now s =
     (let reports1 = (if \<not> dict_contains (reports s) uid
                      then dict_setitem (reports s) uid [] else reports s)
      in case dict_getitem reports1 uid of
           Inl e \<Rightarrow> (Inl e, s\<lparr>reports := reports1\<rparr>)
         | Inr history \<Rightarrow>
             (let reports2 = dict_setitem reports1 uid
                               (history @ [\<lparr>r_text = text, r_time = now\<rparr>]);
                  (res, file) = save_json reports2 (reports_file s)
              in (res, s\<lparr>reports := reports2, reports_file := file\<rparr>)))"

text \<open>\<open>report\<close> (lines 89-105); the result is the reply sent, or the exception raised.\<close>

definition report :: "update \<Rightarrow> pystr \<Rightarrow> bot \<Rightarrow> (error + pystr) \<times> bot" where
  "report u now s =
     (case ensure_user (PyInt (from_id u)) (first_name u) s of
        (Inl e, s1) \<Rightarrow> (Inl e, s1)
      | (Inr _, s1) \<Rightarrow>
          (let text = py_replace (msg_text u) (ascii ''/report '') [];
               uid = py_str (PyInt (from_id u))
           in case append_report uid text now s1 of
                (Inl e, s2) \<Rightarrow> (Inl e, s2)
              | (Inr _, s2) \<Rightarrow> (Inr report_ack, s2)))"

text \<open>Lines 138-146 of \<open>add_task\<close>.\<close>

definition append_task :: "pystr \<Rightarrow> pystr \<Rightarrow> pystr \<Rightarrow> bot \<Rightarrow> (error + unit) \<times> bot" where
  "append_task uid text now s =
     (let tasks1 = (if \<not> dict_contains (tasks s) uid
                    then dict_setitem (tasks s) uid [] else tasks s)
      in case dict_getitem tasks1 uid of
           Inl e \<Rightarrow> (Inl e, s\<lparr>tasks := tasks1\<rparr>)
         | Inr todo \<Rightarrow>
             (let tasks2 = dict_setitem tasks1 uid
                             (todo @ [\<lparr>t_title = text, t_done = False, t_time = now\<rparr>]);
                  (res, file) = save_json tasks2 (tasks_file s)
              in (res, s\<lparr>tasks := tasks2, tasks_file := file\<rparr>)))"

text \<open>\<open>add_task\<close> (lines 131-148).\<close>

definition add_task :: "update \<Rightarrow> pystr \<Rightarrow> bot \<Rightarrow> (error + pystr) \<times> bot" where
  "add_task u now s =
     (case ensure_user (PyInt (from_id u)) (first_name u) s of
        (Inl e, s1) \<Rightarrow> (Inl e, s1)
      | (Inr _, s1) \<Rightarrow>
          (let text = py_replace (msg_text u) (ascii ''/task '') [];
               uid = py_str (PyInt (from_id u))
           in case append_task uid text now s1 of
                (Inl e, s2) \<Rightarrow> (Inl e, s2)
              | (Inr _, s2) \<Rightarrow> (Inr task_ack, s2)))"

text \<open>
  The reverse lookup of \<open>show_reports\<close> (lines 114-121): the \<open>for\<close> loop over
  \<open>users.items()\<close> leaves at the first entry with the name; \<open>None\<close> is its \<open>else\<close> branch.
\<close>

fun resolve_id_by_name :: "users_doc \<Rightarrow> pystr \<Rightarrow> pystr option" where
  "resolve_id_by_name [] name_to_find = None"
| "resolve_id_by_name ((uid, name) # rest) name_to_find =
     (if name = name_to_find then Some uid else resolve_id_by_name rest name_to_find)"

text \<open>\<open>show_reports\<close> (lines 107-129) changes nothing; the result is its reply.\<close>

definition show_reports :: "update \<Rightarrow> bot \<Rightarrow> pystr" where
  "show_reports u s =
     (let target = py_strip (py_replace (msg_text u) (ascii ''/show '') []);
          name_to_find = (if target \<noteq> [] then target else first_name u)
      in case resolve_id_by_name (users s) name_to_find of
           None \<Rightarrow> not_found_reply
         | Some selected \<Rightarrow>
             (let user_reports = dict_get (reports s) selected [] in
              if user_reports = [] then no_reports_reply
              else reports_header @
                   py_join [10, 10] (map (\<lambda>r. ascii ''- '' @ r_text r) (last_n 10 user_reports))))"

section \<open>The daily summary\<close>

text \<open>The text built in lines 153-162 for one entry of \<open>users\<close>.\<close>

definition summary_text :: "bot \<Rightarrow> pystr \<Rightarrow> pystr \<Rightarrow> pystr" where
  "summary_text s uid name =
     (let user_reports = dict_get (reports s) uid [];
          user_tasks = dict_get (tasks s) uid [];
          pending = filter (\<lambda>t. \<not> t_done t) user_tasks;
          tip = generate_tip s (PyStr uid)
      in summary_head @ name @ summary_count @ str_int (int (length user_reports)) @
         summary_pending @ str_int (int (length pending)) @ summary_tip @ tip)"

text \<open>
  The \<open>try\<close> block of lines 164-167.  \<open>to_int\<close> is the builtin \<open>int\<close> on strings (\<open>None\<close>
  when it raises \<open>ValueError\<close>) and \<open>send\<close> tells whether \<open>send_message\<close> returns
  (\<open>False\<close> when it raises).  The result is the message delivered, \<open>None\<close> when the
  \<open>except\<close> clause swallowed an exception.
\<close>

definition deliver ::
  "(pystr \<Rightarrow> int option) \<Rightarrow> (int \<Rightarrow> pystr \<Rightarrow> bool) \<Rightarrow> pystr \<Rightarrow> pystr \<Rightarrow> (int \<times> pystr) option" where
  "deliver to_int send uid text =
     (case to_int uid of
        None \<Rightarrow> None
      | Some chat_id \<Rightarrow> if send chat_id text then Some (chat_id, text) else None)"

text \<open>
  The loop of \<open>daily_summary\<close> (lines 150-167) over \<open>users.items()\<close>; the result lists
  the messages delivered, in the order they were sent.
\<close>

fun summary_loop ::
  "(pystr \<Rightarrow> int option) \<Rightarrow> (int \<Rightarrow> pystr \<Rightarrow> bool) \<Rightarrow> bot \<Rightarrow> users_doc \<Rightarrow> (int \<times> pystr) list" where
  "summary_loop to_int send s [] = []"
| "summary_loop to_int send s ((uid, name) # rest) =
     (case deliver to_int send uid (summary_text s uid name) of
        None \<Rightarrow> summary_loop to_int send s rest
      | Some m \<Rightarrow> m # summary_loop to_int send s rest)"

definition daily_summary ::
  "(pystr \<Rightarrow> int option) \<Rightarrow> (int \<Rightarrow> pystr \<Rightarrow> bool) \<Rightarrow> bot \<Rightarrow> (int \<times> pystr) list" where
  "daily_summary to_int send s = summary_loop to_int send s (users s)"

section \<open>Runs of calls\<close>

text \<open>
  A sequence of appends, each given as the key, the text and the time; every call is made
  on the state the one before left, whatever its \<open>save_json\<close> returned.
\<close>

definition append_reports :: "(pystr \<times> pystr \<times> pystr) list \<Rightarrow> bot \<Rightarrow> bot" where
  "append_reports calls s =
     fold (\<lambda>(uid, text, now) s'. snd (append_report uid text now s')) calls s"

text \<open>The entry that such a call stores.\<close>

definition entry_of :: "pystr \<times> pystr \<times> pystr \<Rightarrow> report_rec" where
  "entry_of call = (case call of (uid, text, now) \<Rightarrow> \<lparr>r_text = text, r_time = now\<rparr>)"

section \<open>Example data\<close>

text \<open>A file that does not exist yet, on a healthy device.\<close>

definition idle_file :: "'d resource" where
  "idle_file = \<lparr>content = None, condition = Healthy, save_calls = 0\<rparr>"

text \<open>
  A state in which user \<open>7\<close> has \<open>volume\<close> reports, \<open>pending\<close> open tasks and
  \<open>finished\<close> tasks that are done.
\<close>

definition example_snapshot :: "nat \<Rightarrow> nat \<Rightarrow> nat \<Rightarrow> bot" where
  "example_snapshot pending finished volume =
     \<lparr>users = [],
      reports = [(ascii ''7'', replicate volume \<lparr>r_text = ascii ''wrote tests'', r_time = []\<rparr>)],
      tasks = [(ascii ''7'',
                replicate pending \<lparr>t_title = ascii ''todo'', t_done = False, t_time = []\<rparr> @
                replicate finished \<lparr>t_title = ascii ''old'', t_done = True, t_time = []\<rparr>)],
      users_file = idle_file, reports_file = idle_file, tasks_file = idle_file\<rparr>"

text \<open>A users file holding one user, on a device whose writes fail, and the next save.\<close>

definition prior_users :: users_doc where
  "prior_users = [(ascii ''1'', ascii ''Ali'')]"

definition next_users :: users_doc where
  "next_users = [(ascii ''1'', ascii ''Ali''), (ascii ''2'', ascii ''Bo'')]"

definition full_disk_file :: "users_doc resource" where
  "full_disk_file = \<lparr>content = Some (Json prior_users), condition = WriteFails, save_calls = 0\<rparr>"

text \<open>A users file whose text does not parse.\<close>

definition garbage_file :: "users_doc resource" where
  "garbage_file = \<lparr>content = Some Garbage, condition = Healthy, save_calls = 0\<rparr>"

text \<open>Three users, the first and the third with the same first name.\<close>

definition namesakes :: bot where
  "namesakes =
     \<lparr>users = [(ascii ''1'', ascii ''Sam''), (ascii ''2'', ascii ''Ali''), (ascii ''3'', ascii ''Sam'')],
      reports = [], tasks = [],
      users_file = idle_file, reports_file = idle_file, tasks_file = idle_file\<rparr>"

text \<open>User \<open>1\<close> is registered and saved; user \<open>2\<close> has not been seen yet.\<close>

definition newcomer :: bot where
  "newcomer =
     \<lparr>users = prior_users, reports = [], tasks = [],
      users_file = \<lparr>content = Some (Json prior_users), condition = Healthy, save_calls = 1\<rparr>,
      reports_file = idle_file, tasks_file = idle_file\<rparr>"

text \<open>
  Three users, of whom the first has one report; the chat ids that \<open>int\<close> gives for
  their keys; and a transport on which sending to chat \<open>2\<close> raises.
\<close>

definition three_users :: bot where
  "three_users =
     \<lparr>users = [(ascii ''1'', ascii ''Ali''), (ascii ''2'', ascii ''Bo''), (ascii ''3'', ascii ''Cy'')],
      reports = [(ascii ''1'', [\<lparr>r_text = ascii ''did x'', r_time = ascii ''t1''\<rparr>])],
      tasks = [],
      users_file = idle_file, reports_file = idle_file, tasks_file = idle_file\<rparr>"

definition chat_ids :: "pystr \<Rightarrow> int option" where
  "chat_ids = map_of [(ascii ''1'', 1), (ascii ''2'', 2), (ascii ''3'', 3)]"

definition second_blocked :: "int \<Rightarrow> pystr \<Rightarrow> bool" where
  "second_blocked chat_id text \<longleftrightarrow> chat_id \<noteq> 2"

text \<open>The message \<open>/show\<close> without an argument, sent by user \<open>1\<close>.\<close>

definition bare_show :: update where
  "bare_show = \<lparr>from_id = 1, first_name = ascii ''Ali'', msg_text = ascii ''/show''\<rparr>"

text \<open>A message of user \<open>1\<close> with the command word inside the text, twice.\<close>

definition midtext_report :: update where
  "midtext_report = \<lparr>from_id = 1, first_name = ascii ''Ali'',
                       msg_text = ascii ''note /report done /report !''\<rparr>"

section \<open>Properties\<close>

subsection \<open>Dictionaries and strings\<close>

lemma dict_get_absent: "\<not> dict_contains d k \<Longrightarrow> dict_get d k dflt = dflt"
  by (induction d) (auto simp: dict_contains_def dict_get_def)

lemma str_int_7: "str_int 7 = ascii ''7''"
  by (simp add: str_int_def decimal.simps ascii_def)

subsection \<open>The tip\<close>

lemma generate_tip_rules:
  "generate_tip s user_id =
     (if 3 < length (filter (\<lambda>t. \<not> t_done t) (dict_get (tasks s) (py_str user_id) []))
      then backlog_tip
      else if length (dict_get (reports s) (py_str user_id) []) < 2 then low_volume_tip
      else steady_pace_tip)"
  by (simp add: generate_tip_def Let_def)

lemma tips_differ:
  "backlog_tip \<noteq> low_volume_tip" "backlog_tip \<noteq> steady_pace_tip"
  "low_volume_tip \<noteq> steady_pace_tip"
  by (simp_all add: backlog_tip_def low_volume_tip_def steady_pace_tip_def)

text \<open>
  C1.  The tip is decided by three rules in order: more than three tasks that are not done
  give the backlog text, whatever the number of reports; otherwise fewer than two reports
  give the low-volume text; otherwise the steady-pace text.  The three texts are different
  from each other.
\<close>

theorem generate_tip_decision_table:
  "generate_tip s user_id =
     (if 3 < length (filter (\<lambda>t. \<not> t_done t) (dict_get (tasks s) (py_str user_id) []))
      then backlog_tip
      else if length (dict_get (reports s) (py_str user_id) []) < 2 then low_volume_tip
      else steady_pace_tip)
   \<and> backlog_tip \<noteq> low_volume_tip \<and> backlog_tip \<noteq> steady_pace_tip
   \<and> low_volume_tip \<noteq> steady_pace_tip"
  using generate_tip_rules tips_differ by blast

text \<open>
  The rows of the table: 4 pending and 10 reports, no pending and 1 report, 1 pending and
  5 reports; and 4 pending with 1 report, where both of the first two rules apply.
\<close>

theorem generate_tip_decision_table_witness:
  "generate_tip (example_snapshot 4 0 10) (PyInt 7) = backlog_tip \<and>
   generate_tip (example_snapshot 0 0 1) (PyInt 7) = low_volume_tip \<and>
   generate_tip (example_snapshot 1 0 5) (PyInt 7) = steady_pace_tip \<and>
   generate_tip (example_snapshot 4 2 1) (PyInt 7) = backlog_tip"
  using generate_tip_decision_table [of "example_snapshot 4 0 10" "PyInt 7"]
        generate_tip_decision_table [of "example_snapshot 0 0 1" "PyInt 7"]
        generate_tip_decision_table [of "example_snapshot 1 0 5" "PyInt 7"]
        generate_tip_decision_table [of "example_snapshot 4 2 1" "PyInt 7"]
  by (simp add: example_snapshot_def dict_get_def str_int_7)

text \<open>
  C7.  For an id that is a key of neither \<open>reports\<close> nor \<open>tasks\<close>, \<open>generate_tip\<close> counts
  no pending task and no report, and returns the low-volume text.
\<close>

theorem generate_tip_unknown_id:
  "\<not> dict_contains (reports s) (py_str user_id) \<Longrightarrow>
   \<not> dict_contains (tasks s) (py_str user_id) \<Longrightarrow>
     length (filter (\<lambda>t. \<not> t_done t) (dict_get (tasks s) (py_str user_id) [])) = 0 \<and>
     length (dict_get (reports s) (py_str user_id) []) = 0 \<and>
     generate_tip s user_id = low_volume_tip"
  by (simp add: generate_tip_rules dict_get_absent)

theorem generate_tip_unknown_id_witness:
  "\<not> dict_contains (reports (example_snapshot 4 0 10)) (py_str (PyStr (ascii ''nonexistent''))) \<and>
   \<not> dict_contains (tasks (example_snapshot 4 0 10)) (py_str (PyStr (ascii ''nonexistent''))) \<and>
   generate_tip (example_snapshot 4 0 10) (PyStr (ascii ''nonexistent'')) = low_volume_tip"
proof -
  have r: "\<not> dict_contains (reports (example_snapshot 4 0 10))
             (py_str (PyStr (ascii ''nonexistent'')))"
    by (simp add: example_snapshot_def dict_contains_def ascii_def)
  have t: "\<not> dict_contains (tasks (example_snapshot 4 0 10))
             (py_str (PyStr (ascii ''nonexistent'')))"
    by (simp add: example_snapshot_def dict_contains_def ascii_def)
  from generate_tip_unknown_id [OF r t] r t show ?thesis by blast
qed

subsection \<open>Loading and saving\<close>

lemma save_json_healthy:
  "condition r = Healthy \<Longrightarrow>
     save_json d r = (Inr (), r\<lparr>content := Some (Json d), save_calls := Suc (save_calls r)\<rparr>)"
  by (simp add: save_json_def)

lemma save_json_condition [simp]: "condition (snd (save_json d r)) = condition r"
  by (simp add: save_json_def split: io_condition.splits)

lemma save_json_calls [simp]: "save_calls (snd (save_json d r)) = Suc (save_calls r)"
  by (simp add: save_json_def split: io_condition.splits)

lemma load_json_reinit:
  assumes "condition r = Healthy" and "\<forall>d. content r \<noteq> Some (Json d)"
  shows "load_json dflt r =
           (Inr dflt, r\<lparr>content := Some (Json dflt), save_calls := Suc (save_calls r)\<rparr>)"
proof (cases "content r")
  case None
  with assms show ?thesis by (simp add: load_json_def save_json_healthy)
next
  case (Some t)
  with assms show ?thesis
    by (cases t) (simp_all add: load_json_def save_json_healthy)
qed

text \<open>
  C3.  On a healthy device, \<open>load_json\<close> of a path that is absent and of a path whose
  text does not parse do the same: one save of the default document, which is then the
  content of the file, and the default document is returned, with no exception.
\<close>

theorem load_json_absent_or_unparsable:
  "condition r = Healthy \<Longrightarrow> \<forall>d. content r \<noteq> Some (Json d) \<Longrightarrow>
     load_json dflt r =
       (Inr dflt, r\<lparr>content := Some (Json dflt), save_calls := Suc (save_calls r)\<rparr>) \<and>
     load_json dflt r = load_json dflt (r\<lparr>content := None\<rparr>)"
  by (simp add: load_json_reinit)

theorem load_json_absent_or_unparsable_witness:
  "condition garbage_file = Healthy \<and> (\<forall>d. content garbage_file \<noteq> Some (Json d)) \<and>
   fst (load_json [] garbage_file) = Inr [] \<and>
   content (snd (load_json [] garbage_file)) = Some (Json []) \<and>
   load_json [] garbage_file = load_json [] idle_file"
proof -
  have h: "condition garbage_file = Healthy" by (simp add: garbage_file_def)
  have u: "\<forall>d. content garbage_file \<noteq> Some (Json d)" by (simp add: garbage_file_def)
  have i: "garbage_file\<lparr>content := None\<rparr> = idle_file"
    by (simp add: garbage_file_def idle_file_def)
  note both = load_json_absent_or_unparsable [OF h u, of "[]"]
  from both have a: "fst (load_json [] garbage_file) = Inr []" by simp
  from both have b: "content (snd (load_json [] garbage_file)) = Some (Json [])" by simp
  from both i have c: "load_json [] garbage_file = load_json [] idle_file" by metis
  from h u a b c show ?thesis by blast
qed

subsection \<open>A save that fails\<close>

text \<open>
  C2 does not hold as stated.  The users file holds one user; a save of two users fails
  after the file was opened.  The exception reaches the caller, but the file then holds
  a partial text, and a later load does not return the prior document.
\<close>

theorem save_json_failed_write_counterexample:
  "fst (save_json next_users full_disk_file) = Inl OSError \<and>
   content full_disk_file = Some (Json prior_users) \<and>
   content (snd (save_json next_users full_disk_file)) = Some (Partial next_users) \<and>
   fst (load_json [] ((snd (save_json next_users full_disk_file))\<lparr>condition := Healthy\<rparr>))
     \<noteq> Inr prior_users"
  by (simp add: save_json_def load_json_def full_disk_file_def prior_users_def)

text \<open>
  C2, amended.  A save that fails is reported to the caller.  \<open>save_json\<close> writes into
  the file itself: when the open is refused the content stays as it was, but when the
  write fails after the open the file is left partially written, and the next load (on a
  device that works again) does not see the prior document: it writes and returns the
  default.
\<close>

theorem save_json_in_place:
  "(condition r = Healthy \<longrightarrow>
      save_json d r = (Inr (), r\<lparr>content := Some (Json d), save_calls := Suc (save_calls r)\<rparr>)) \<and>
   (condition r \<noteq> Healthy \<longrightarrow> fst (save_json d r) = Inl OSError) \<and>
   (condition r = OpenDenied \<longrightarrow> content (snd (save_json d r)) = content r) \<and>
   (condition r = WriteFails \<longrightarrow>
      content (snd (save_json d r)) = Some (Partial d) \<and>
      fst (load_json dflt ((snd (save_json d r))\<lparr>condition := Healthy\<rparr>)) = Inr dflt \<and>
      content (snd (load_json dflt ((snd (save_json d r))\<lparr>condition := Healthy\<rparr>)))
        = Some (Json dflt))"
  by (cases "condition r") (simp_all add: save_json_def load_json_def)

theorem save_json_in_place_witness:
  "condition full_disk_file = WriteFails \<and>
   fst (save_json next_users full_disk_file) = Inl OSError \<and>
   content (snd (save_json next_users full_disk_file)) = Some (Partial next_users) \<and>
   fst (load_json [] ((snd (save_json next_users full_disk_file))\<lparr>condition := Healthy\<rparr>)) = Inr []"
  using save_json_in_place [of full_disk_file next_users "[]"]
  by (simp add: full_disk_file_def)

subsection \<open>Looking a name up\<close>

lemma dict_setitem_absent:
  "\<not> dict_contains d k \<Longrightarrow> dict_setitem d k v = d @ [(k, v)]"
  by (induction d) (auto simp: dict_contains_def)

lemma resolve_none: "resolve_id_by_name us n = None \<longleftrightarrow> n \<notin> snd ` set us"
  by (induction us n rule: resolve_id_by_name.induct) auto

lemma resolve_append:
  "resolve_id_by_name (us @ vs) n =
     (case resolve_id_by_name us n of Some u \<Rightarrow> Some u | None \<Rightarrow> resolve_id_by_name vs n)"
  by (induction us n rule: resolve_id_by_name.induct) auto

lemma resolve_some:
  "resolve_id_by_name us n = Some uid \<longleftrightarrow>
     (\<exists>before after. us = before @ (uid, n) # after \<and> n \<notin> snd ` set before)"
proof
  show "resolve_id_by_name us n = Some uid \<Longrightarrow>
          \<exists>before after. us = before @ (uid, n) # after \<and> n \<notin> snd ` set before"
  proof (induction us n rule: resolve_id_by_name.induct)
    case (1 n)
    then show ?case by simp
  next
    case (2 u name rest n)
    show ?case
    proof (cases "name = n")
      case True
      with 2 have "(u, name) # rest = [] @ (uid, n) # rest" by simp
      then show ?thesis by (metis empty_iff image_empty list.set(1))
    next
      case False
      with 2 obtain before after where
        "rest = before @ (uid, n) # after" "n \<notin> snd ` set before" by auto
      with False have "(u, name) # rest = ((u, name) # before) @ (uid, n) # after \<and>
                       n \<notin> snd ` set ((u, name) # before)" by auto
      then show ?thesis by blast
    qed
  qed
next
  assume "\<exists>before after. us = before @ (uid, n) # after \<and> n \<notin> snd ` set before"
  then obtain before after where
    us: "us = before @ (uid, n) # after" and nb: "n \<notin> snd ` set before" by blast
  from nb have "resolve_id_by_name before n = None" by (simp add: resolve_none)
  with us show "resolve_id_by_name us n = Some uid" by (simp add: resolve_append)
qed

lemma resolve_after_insert:
  "\<not> dict_contains us new_id \<Longrightarrow>
     resolve_id_by_name (dict_setitem us new_id n) n =
       (case resolve_id_by_name us n of Some u \<Rightarrow> Some u | None \<Rightarrow> Some new_id)"
  by (simp add: dict_setitem_absent resolve_append split: option.splits)

text \<open>
  C9.  The lookup returns an id exactly when its entry is the first one of \<open>users\<close>, in
  iteration order, whose name equals the queried name; it finds nothing exactly when no
  entry has that name.  A new id is put behind all entries, so it is returned only when
  no earlier entry has the name.
\<close>

theorem resolve_id_by_name_first_match:
  "(resolve_id_by_name us n = Some uid \<longleftrightarrow>
      (\<exists>before after. us = before @ (uid, n) # after \<and> n \<notin> snd ` set before)) \<and>
   (resolve_id_by_name us n = None \<longleftrightarrow> n \<notin> snd ` set us) \<and>
   (\<not> dict_contains us new_id \<longrightarrow>
      resolve_id_by_name (dict_setitem us new_id n) n =
        (case resolve_id_by_name us n of Some u \<Rightarrow> Some u | None \<Rightarrow> Some new_id))"
  using resolve_some [of us n uid] resolve_none [of us n] resolve_after_insert [of us new_id n]
  by blast

theorem resolve_id_by_name_first_match_witness:
  "resolve_id_by_name (users namesakes) (ascii ''Sam'') = Some (ascii ''1'') \<and>
   resolve_id_by_name (users namesakes) (ascii ''sam'') = None \<and>
   \<not> dict_contains (users namesakes) (ascii ''4'') \<and>
   resolve_id_by_name (dict_setitem (users namesakes) (ascii ''4'') (ascii ''Ali'')) (ascii ''Ali'')
     = Some (ascii ''2'')"
  using resolve_id_by_name_first_match [of "users namesakes" "ascii ''Sam''" "ascii ''1''" "ascii ''4''"]
        resolve_id_by_name_first_match [of "users namesakes" "ascii ''sam''" "ascii ''1''" "ascii ''4''"]
        resolve_id_by_name_first_match [of "users namesakes" "ascii ''Ali''" "ascii ''2''" "ascii ''4''"]
  by (simp add: namesakes_def ascii_def dict_contains_def)

subsection \<open>Registering a user\<close>

lemma map_of_setitem: "map_of (dict_setitem d k v) = (map_of d)(k \<mapsto> v)"
  by (induction d) (auto simp: fun_eq_iff)

lemma dict_getitem_setitem: "dict_getitem (dict_setitem d k v) k = Inr v"
  by (simp add: dict_getitem_def map_of_setitem)

lemma dict_contains_map_of: "dict_contains d k \<longleftrightarrow> map_of d k \<noteq> None"
  by (simp add: dict_contains_def map_of_eq_None_iff)

lemma dict_contains_setitem: "dict_contains (dict_setitem d k v) k"
  by (simp add: dict_contains_map_of map_of_setitem)

lemma ensure_user_present:
  "dict_contains (users s) (py_str user_id) \<Longrightarrow> ensure_user user_id name s = (Inr (), s)"
  by (simp add: ensure_user_def)

lemma ensure_user_absent:
  "\<not> dict_contains (users s) (py_str user_id) \<Longrightarrow>
     ensure_user user_id name s =
       (fst (save_json (users s @ [(py_str user_id, name)]) (users_file s)),
        s\<lparr>users := users s @ [(py_str user_id, name)],
          users_file := snd (save_json (users s @ [(py_str user_id, name)]) (users_file s))\<rparr>)"
  by (simp add: ensure_user_def Let_def dict_setitem_absent split: prod.splits)

lemma ensure_user_registers:
  "dict_contains (users (snd (ensure_user user_id name s))) (py_str user_id)"
proof (cases "dict_contains (users s) (py_str user_id)")
  case True
  then show ?thesis by (simp add: ensure_user_present)
next
  case False
  then show ?thesis
    using dict_contains_setitem [of "users s" "py_str user_id" name]
    by (simp add: ensure_user_absent dict_setitem_absent)
qed

text \<open>
  C5.  When the id is not a key of \<open>users\<close>, \<open>ensure_user\<close> puts the id with the name
  behind the other entries and calls \<open>save_json\<close> once on the users file (which, on a
  healthy device, then holds the new dictionary).  When the id is a key, the whole state,
  the files and their save counts included, is unchanged.  So a second call with the same
  id, with any name, changes nothing and saves nothing.
\<close>

theorem ensure_user_idempotent:
  "(\<not> dict_contains (users s) (py_str user_id) \<longrightarrow>
      users (snd (ensure_user user_id name s)) = users s @ [(py_str user_id, name)] \<and>
      dict_getitem (users (snd (ensure_user user_id name s))) (py_str user_id) = Inr name \<and>
      save_calls (users_file (snd (ensure_user user_id name s))) = Suc (save_calls (users_file s)) \<and>
      (condition (users_file s) = Healthy \<longrightarrow>
         fst (ensure_user user_id name s) = Inr () \<and>
         content (users_file (snd (ensure_user user_id name s))) =
           Some (Json (users s @ [(py_str user_id, name)])))) \<and>
   (dict_contains (users s) (py_str user_id) \<longrightarrow> ensure_user user_id name s = (Inr (), s)) \<and>
   ensure_user user_id other_name (snd (ensure_user user_id name s)) =
     (Inr (), snd (ensure_user user_id name s))"
proof (intro conjI impI)
  assume a: "\<not> dict_contains (users s) (py_str user_id)"
  from a show "users (snd (ensure_user user_id name s)) = users s @ [(py_str user_id, name)]"
    by (simp add: ensure_user_absent)
  from a show "dict_getitem (users (snd (ensure_user user_id name s))) (py_str user_id) = Inr name"
    using dict_getitem_setitem [of "users s" "py_str user_id" name]
    by (simp add: ensure_user_absent dict_setitem_absent)
  from a show "save_calls (users_file (snd (ensure_user user_id name s)))
                 = Suc (save_calls (users_file s))"
    by (simp add: ensure_user_absent)
  assume h: "condition (users_file s) = Healthy"
  from a h show "fst (ensure_user user_id name s) = Inr ()"
    by (simp add: ensure_user_absent save_json_healthy)
  from a h show "content (users_file (snd (ensure_user user_id name s)))
                   = Some (Json (users s @ [(py_str user_id, name)]))"
    by (simp add: ensure_user_absent save_json_healthy)
next
  assume "dict_contains (users s) (py_str user_id)"
  then show "ensure_user user_id name s = (Inr (), s)" by (rule ensure_user_present)
next
  show "ensure_user user_id other_name (snd (ensure_user user_id name s))
          = (Inr (), snd (ensure_user user_id name s))"
    by (rule ensure_user_present) (rule ensure_user_registers)
qed

theorem ensure_user_idempotent_witness:
  "\<not> dict_contains (users newcomer) (py_str (PyInt 2)) \<and>
   dict_contains (users newcomer) (py_str (PyInt 1)) \<and>
   condition (users_file newcomer) = Healthy \<and>
   users (snd (ensure_user (PyInt 2) (ascii ''Bo'') newcomer)) = next_users \<and>
   content (users_file (snd (ensure_user (PyInt 2) (ascii ''Bo'') newcomer))) = Some (Json next_users) \<and>
   save_calls (users_file (snd (ensure_user (PyInt 2) (ascii ''Bo'') newcomer))) = 2 \<and>
   ensure_user (PyInt 2) (ascii ''Robert'') (snd (ensure_user (PyInt 2) (ascii ''Bo'') newcomer))
     = (Inr (), snd (ensure_user (PyInt 2) (ascii ''Bo'') newcomer)) \<and>
   ensure_user (PyInt 1) (ascii ''Alice'') newcomer = (Inr (), newcomer)"
proof -
  have k2: "str_int 2 = ascii ''2''" and k1: "str_int 1 = ascii ''1''"
    by (simp_all add: str_int_def decimal.simps ascii_def)
  have a: "\<not> dict_contains (users newcomer) (py_str (PyInt 2))"
    by (simp add: k2 newcomer_def prior_users_def dict_contains_def ascii_def)
  have p: "dict_contains (users newcomer) (py_str (PyInt 1))"
    by (simp add: k1 newcomer_def prior_users_def dict_contains_def)
  have h: "condition (users_file newcomer) = Healthy" by (simp add: newcomer_def)
  have n: "users newcomer @ [(py_str (PyInt 2), ascii ''Bo'')] = next_users"
    by (simp add: k2 newcomer_def prior_users_def next_users_def)
  have c: "save_calls (users_file newcomer) = 1" by (simp add: newcomer_def)
  note first = ensure_user_idempotent [of newcomer "PyInt 2" "ascii ''Bo''" "ascii ''Robert''"]
  note known = ensure_user_idempotent [of newcomer "PyInt 1" "ascii ''Alice''" "ascii ''Alice''"]
  from first a h n c known p show ?thesis by simp
qed

subsection \<open>Appending reports\<close>

lemma dict_get_setitem:
  "dict_get (dict_setitem d k v) k' dflt = (if k' = k then v else dict_get d k' dflt)"
  by (simp add: dict_get_def map_of_setitem)

lemma dict_setitem_twice: "dict_setitem (dict_setitem d k v) k w = dict_setitem d k w"
  by (induction d) auto

lemma dict_getitem_present:
  "dict_contains d k \<Longrightarrow> dict_getitem d k = Inr (dict_get d k dflt)"
  by (auto simp: dict_contains_map_of dict_getitem_def dict_get_def)

lemma append_report_reports:
  "reports (snd (append_report uid text now s)) =
     dict_setitem (reports s) uid (dict_get (reports s) uid [] @ [\<lparr>r_text = text, r_time = now\<rparr>])"
proof (cases "dict_contains (reports s) uid")
  case True
  then show ?thesis
    by (simp add: append_report_def Let_def dict_getitem_present [of _ _ "[]"]
             split: prod.splits)
next
  case False
  then show ?thesis
    by (simp add: append_report_def Let_def dict_getitem_setitem dict_setitem_twice
                  dict_get_absent split: prod.splits)
qed

lemma append_report_list:
  "dict_get (reports (snd (append_report uid text now s))) k [] =
     dict_get (reports s) k [] @ (if uid = k then [\<lparr>r_text = text, r_time = now\<rparr>] else [])"
  by (auto simp: append_report_reports dict_get_setitem)

lemma append_reports_list:
  "dict_get (reports (append_reports calls s)) k [] =
     dict_get (reports s) k [] @ map entry_of (filter (\<lambda>call. fst call = k) calls)"
proof (induction calls arbitrary: s)
  case Nil
  then show ?case by (simp add: append_reports_def)
next
  case (Cons call calls)
  obtain uid body now where call: "call = (uid, body, now)" by (cases call) auto
  have "append_reports (call # calls) s = append_reports calls (snd (append_report uid body now s))"
    by (simp add: append_reports_def call)
  then show ?case
    by (simp add: Cons.IH append_report_list call entry_of_def)
qed

text \<open>
  C6.  After any sequence of appends, the reports listed for a key are the ones listed
  before, unchanged and in the same order, followed by the entries of the calls made for
  that key, in call order.  So \<open>N\<close> appends for a key without history give exactly \<open>N\<close>
  entries, with the texts of the calls in call order.
\<close>

theorem report_history_append_only:
  "dict_get (reports (append_reports calls s)) k [] =
     dict_get (reports s) k [] @ map entry_of (filter (\<lambda>call. fst call = k) calls) \<and>
   (\<not> dict_contains (reports s) k \<longrightarrow> (\<forall>call \<in> set calls. fst call = k) \<longrightarrow>
      length (dict_get (reports (append_reports calls s)) k []) = length calls \<and>
      map r_text (dict_get (reports (append_reports calls s)) k []) = map (fst \<circ> snd) calls)"
proof (intro conjI impI)
  show l: "dict_get (reports (append_reports calls s)) k [] =
     dict_get (reports s) k [] @ map entry_of (filter (\<lambda>call. fst call = k) calls)"
    by (rule append_reports_list)
  assume a: "\<not> dict_contains (reports s) k" and c: "\<forall>call \<in> set calls. fst call = k"
  from c have f: "filter (\<lambda>call. fst call = k) calls = calls" by simp
  from a have e: "dict_get (reports s) k [] = []" by (rule dict_get_absent)
  from l f e show "length (dict_get (reports (append_reports calls s)) k []) = length calls"
    by simp
  have "map r_text (map entry_of calls) = map (fst \<circ> snd) calls"
    by (simp add: entry_of_def split: prod.splits)
  with l f e show "map r_text (dict_get (reports (append_reports calls s)) k []) = map (fst \<circ> snd) calls"
    by simp
qed

theorem report_history_append_only_witness:
  "\<not> dict_contains (reports newcomer) (ascii ''7'') \<and>
   map r_text (dict_get (reports (append_reports
       [(ascii ''7'', ascii ''a'', ascii ''t1''), (ascii ''7'', ascii ''b'', ascii ''t2''),
        (ascii ''7'', ascii ''a'', ascii ''t3'')] newcomer)) (ascii ''7'') [])
     = [ascii ''a'', ascii ''b'', ascii ''a''] \<and>
   map r_text (dict_get (reports (append_reports
       [(ascii ''7'', ascii ''a'', ascii ''t1''), (ascii ''8'', ascii ''z'', ascii ''t2''),
        (ascii ''7'', ascii ''b'', ascii ''t3'')] three_users)) (ascii ''1'') [])
     = [ascii ''did x'']"
proof -
  have a: "\<not> dict_contains (reports newcomer) (ascii ''7'')"
    by (simp add: newcomer_def dict_contains_def)
  have c: "\<forall>call \<in> set [(ascii ''7'', ascii ''a'', ascii ''t1''), (ascii ''7'', ascii ''b'', ascii ''t2''),
        (ascii ''7'', ascii ''a'', ascii ''t3'')]. fst call = ascii ''7''" by simp
  from report_history_append_only [of "[(ascii ''7'', ascii ''a'', ascii ''t1''),
        (ascii ''7'', ascii ''b'', ascii ''t2''), (ascii ''7'', ascii ''a'', ascii ''t3'')]"
        newcomer "ascii ''7''"] a c
  have "map r_text (dict_get (reports (append_reports
       [(ascii ''7'', ascii ''a'', ascii ''t1''), (ascii ''7'', ascii ''b'', ascii ''t2''),
        (ascii ''7'', ascii ''a'', ascii ''t3'')] newcomer)) (ascii ''7'') [])
     = map (fst \<circ> snd) [(ascii ''7'', ascii ''a'', ascii ''t1''),
        (ascii ''7'', ascii ''b'', ascii ''t2''), (ascii ''7'', ascii ''a'', ascii ''t3'')]"
    by blast
  then have one: "map r_text (dict_get (reports (append_reports
       [(ascii ''7'', ascii ''a'', ascii ''t1''), (ascii ''7'', ascii ''b'', ascii ''t2''),
        (ascii ''7'', ascii ''a'', ascii ''t3'')] newcomer)) (ascii ''7'') [])
     = [ascii ''a'', ascii ''b'', ascii ''a'']" by simp
  from report_history_append_only [of "[(ascii ''7'', ascii ''a'', ascii ''t1''),
        (ascii ''8'', ascii ''z'', ascii ''t2''), (ascii ''7'', ascii ''b'', ascii ''t3'')]"
        three_users "ascii ''1''"]
  have two: "map r_text (dict_get (reports (append_reports
       [(ascii ''7'', ascii ''a'', ascii ''t1''), (ascii ''8'', ascii ''z'', ascii ''t2''),
        (ascii ''7'', ascii ''b'', ascii ''t3'')] three_users)) (ascii ''1'') [])
     = [ascii ''did x'']"
    by (simp add: three_users_def dict_get_def ascii_def)
  from a one two show ?thesis by blast
qed

subsection \<open>The daily summary\<close>

lemma generate_tip_users [simp]: "generate_tip (s\<lparr>users := us\<rparr>) user_id = generate_tip s user_id"
  by (simp add: generate_tip_def)

lemma summary_text_users [simp]: "summary_text (s\<lparr>users := us\<rparr>) uid name = summary_text s uid name"
  by (simp add: summary_text_def)

lemma summary_loop_users [simp]:
  "summary_loop to_int send (s\<lparr>users := us\<rparr>) entries = summary_loop to_int send s entries"
  by (induction entries) (auto split: option.splits)

lemma summary_loop_append:
  "summary_loop to_int send s (before @ after) =
     summary_loop to_int send s before @ summary_loop to_int send s after"
  by (induction before) (auto split: option.splits)

text \<open>
  C4.  In a run of the daily job every entry of \<open>users\<close> contributes on its own: the
  messages delivered are those of the run over the entries before it, then its own
  summary once if its delivery went through and nothing if it raised, then those of the
  run over the entries after it.  An entry whose delivery raises leaves the run as it
  would be without that entry.  The run always completes.
\<close>

theorem daily_summary_isolated:
  "users s = before @ (uid, name) # after \<Longrightarrow>
     daily_summary to_int send s =
       daily_summary to_int send (s\<lparr>users := before\<rparr>) @
       (case deliver to_int send uid (summary_text s uid name) of None \<Rightarrow> [] | Some m \<Rightarrow> [m]) @
       daily_summary to_int send (s\<lparr>users := after\<rparr>) \<and>
     (deliver to_int send uid (summary_text s uid name) = None \<longrightarrow>
        daily_summary to_int send s = daily_summary to_int send (s\<lparr>users := before @ after\<rparr>))"
proof -
  assume u: "users s = before @ (uid, name) # after"
  have "summary_loop to_int send s (before @ [(uid, name)] @ after) =
          summary_loop to_int send s before @ summary_loop to_int send s [(uid, name)] @
          summary_loop to_int send s after"
    by (simp only: summary_loop_append)
  with u show ?thesis
    by (simp add: daily_summary_def summary_loop_append split: option.splits)
qed

theorem daily_summary_isolated_witness:
  "users three_users = [(ascii ''1'', ascii ''Ali'')] @ (ascii ''2'', ascii ''Bo'') # [(ascii ''3'', ascii ''Cy'')] \<and>
   deliver chat_ids second_blocked (ascii ''2'') (summary_text three_users (ascii ''2'') (ascii ''Bo'')) = None \<and>
   daily_summary chat_ids second_blocked three_users =
     [(1, summary_text three_users (ascii ''1'') (ascii ''Ali'')),
      (3, summary_text three_users (ascii ''3'') (ascii ''Cy''))]"
proof -
  have u: "users three_users =
             [(ascii ''1'', ascii ''Ali'')] @ (ascii ''2'', ascii ''Bo'') # [(ascii ''3'', ascii ''Cy'')]"
    by (simp add: three_users_def)
  have d: "deliver chat_ids second_blocked (ascii ''2'')
             (summary_text three_users (ascii ''2'') (ascii ''Bo'')) = None"
    by (simp add: deliver_def chat_ids_def second_blocked_def ascii_def)
  have r: "daily_summary chat_ids second_blocked
             (three_users\<lparr>users := [(ascii ''1'', ascii ''Ali'')] @ [(ascii ''3'', ascii ''Cy'')]\<rparr>) =
           [(1, summary_text three_users (ascii ''1'') (ascii ''Ali'')),
            (3, summary_text three_users (ascii ''3'') (ascii ''Cy''))]"
    by (simp add: daily_summary_def deliver_def chat_ids_def second_blocked_def ascii_def)
  from daily_summary_isolated [OF u, of chat_ids second_blocked] d
  have "daily_summary chat_ids second_blocked three_users =
          daily_summary chat_ids second_blocked
            (three_users\<lparr>users := [(ascii ''1'', ascii ''Ali'')] @ [(ascii ''3'', ascii ''Cy'')]\<rparr>)"
    by blast
  with r have "daily_summary chat_ids second_blocked three_users =
           [(1, summary_text three_users (ascii ''1'') (ascii ''Ali'')),
            (3, summary_text three_users (ascii ''3'') (ascii ''Cy''))]"
    by (simp only:)
  with u d show ?thesis by blast
qed

subsection \<open>Showing reports\<close>

lemma str_int_1: "str_int 1 = ascii ''1''"
  by (simp add: str_int_def decimal.simps ascii_def)

text \<open>
  C8.  The sender \<open>Ali\<close> is in \<open>users\<close> and has a report.  For the message \<open>/show\<close>
  nothing is removed by \<open>replace("/show ", "")\<close>, so the name looked up is \<open>/show\<close>
  itself and the reply is the "not found" text; only with the name written out does the
  sender get the report.
\<close>

theorem show_reports_bare_command:
  "resolve_id_by_name (users three_users) (first_name bare_show) = Some (ascii ''1'') \<and>
   dict_get (reports three_users) (ascii ''1'') [] \<noteq> [] \<and>
   py_replace (msg_text bare_show) (ascii ''/show '') [] = ascii ''/show'' \<and>
   show_reports bare_show three_users = not_found_reply \<and>
   show_reports (bare_show\<lparr>msg_text := ascii ''/show Ali''\<rparr>) three_users =
     reports_header @ ascii ''- did x''"
  by (simp add: show_reports_def bare_show_def three_users_def py_replace_def py_strip_def
                is_space_def dict_get_def last_n_def ascii_def)

subsection \<open>Removing the command word\<close>

lemma no_straddling_match:
  assumes "c \<notin> set rest" and "a \<noteq> []" and "length a \<le> length rest"
  shows "take (Suc (length rest)) (a @ c # rest @ b) \<noteq> c # rest"
proof
  assume eq: "take (Suc (length rest)) (a @ c # rest @ b) = c # rest"
  let ?i = "length a"
  from assms have i: "?i < Suc (length rest)" and p: "0 < ?i" by auto
  from i have "take (Suc (length rest)) (a @ c # rest @ b) ! ?i = (a @ c # rest @ b) ! ?i"
    by (rule nth_take)
  also have "\<dots> = c" by simp
  finally have "(c # rest) ! ?i = c" using eq by simp
  with p have "rest ! (?i - 1) = c" by (simp add: nth_Cons')
  moreover from p assms(3) have "?i - 1 < length rest" by linarith
  ultimately have "c \<in> set rest" using nth_mem by metis
  with assms(1) show False by contradiction
qed

lemma replace_scan_hit:
  "take (length old) (x # xs) = old \<Longrightarrow>
     replace_scan old new (x # xs) = new @ replace_scan old new (drop (length old - 1) xs)"
  by simp

lemma replace_scan_miss:
  "take (length old) (x # xs) \<noteq> old \<Longrightarrow>
     replace_scan old new (x # xs) = x # replace_scan old new xs"
  by simp

lemma replace_scan_occurrence:
  assumes c: "c \<notin> set rest"
  shows "replace_scan (c # rest) new (a @ (c # rest) @ b) =
           replace_scan (c # rest) new a @ new @ replace_scan (c # rest) new b"
proof (induction a rule: length_induct)
  case (1 a)
  note IH = 1
  show ?case
  proof (cases a)
    case Nil
    have "take (length (c # rest)) (c # (rest @ b)) = c # rest" by simp
    then have "replace_scan (c # rest) new (c # (rest @ b)) =
                 new @ replace_scan (c # rest) new (drop (length (c # rest) - 1) (rest @ b))"
      by (rule replace_scan_hit)
    with Nil show ?thesis by simp
  next
    case (Cons x xs)
    show ?thesis
    proof (cases "take (length (c # rest)) (x # xs) = c # rest")
      case True
      have len: "length rest \<le> length xs"
      proof -
        from True have "length (take (length (c # rest)) (x # xs)) = length (c # rest)"
          by (simp only:)
        then show ?thesis by simp
      qed
      from True len have full: "take (length (c # rest)) (x # (xs @ (c # rest) @ b)) = c # rest"
        by simp
      have "length (drop (length rest) xs) < length a" using Cons by simp
      with IH have ih:
        "replace_scan (c # rest) new (drop (length rest) xs @ (c # rest) @ b) =
           replace_scan (c # rest) new (drop (length rest) xs) @ new @
           replace_scan (c # rest) new b" by blast
      have "replace_scan (c # rest) new (a @ (c # rest) @ b) =
              replace_scan (c # rest) new (x # (xs @ (c # rest) @ b))"
        using Cons by simp
      also have "\<dots> = new @ replace_scan (c # rest) new
                            (drop (length (c # rest) - 1) (xs @ (c # rest) @ b))"
        using full by (rule replace_scan_hit)
      also have "drop (length (c # rest) - 1) (xs @ (c # rest) @ b) =
                   drop (length rest) xs @ (c # rest) @ b"
        using len by simp
      also note ih
      also have "new @ replace_scan (c # rest) new (drop (length rest) xs) @ new @
                   replace_scan (c # rest) new b =
                 (new @ replace_scan (c # rest) new (drop (length (c # rest) - 1) xs)) @ new @
                   replace_scan (c # rest) new b" by simp
      also have "new @ replace_scan (c # rest) new (drop (length (c # rest) - 1) xs) =
                   replace_scan (c # rest) new (x # xs)"
        using True by (rule replace_scan_hit [symmetric])
      finally show ?thesis using Cons by simp
    next
      case False
      have miss: "take (length (c # rest)) (x # (xs @ (c # rest) @ b)) \<noteq> c # rest"
      proof (cases "Suc (length rest) \<le> length (x # xs)")
        case True
        with False show ?thesis by simp
      next
        case short: False
        then have "length (x # xs) \<le> length rest" by simp
        with c have "take (Suc (length rest)) ((x # xs) @ c # rest @ b) \<noteq> c # rest"
          by (intro no_straddling_match) simp_all
        then show ?thesis by simp
      qed
      have "length xs < length a" using Cons by simp
      with IH have ih:
        "replace_scan (c # rest) new (xs @ (c # rest) @ b) =
           replace_scan (c # rest) new xs @ new @ replace_scan (c # rest) new b" by blast
      have "replace_scan (c # rest) new (a @ (c # rest) @ b) =
              replace_scan (c # rest) new (x # (xs @ (c # rest) @ b))"
        using Cons by simp
      also have "\<dots> = x # replace_scan (c # rest) new (xs @ (c # rest) @ b)"
        using miss by (rule replace_scan_miss)
      also have "\<dots> = (x # replace_scan (c # rest) new xs) @ new @ replace_scan (c # rest) new b"
        using ih by simp
      also have "x # replace_scan (c # rest) new xs = replace_scan (c # rest) new (x # xs)"
        using False by (rule replace_scan_miss [symmetric])
      finally show ?thesis using Cons by simp
    qed
  qed
qed


lemma replace_scan_length: "length (replace_scan old [] s) \<le> length s"
proof (induction old "[] :: 'a list" s rule: replace_scan.induct)
  case (1 old)
  then show ?case by simp
next
  case (2 old c cs)
  then show ?case
    by (cases "take (length old) (c # cs) = old") (auto intro: le_trans)
qed

lemma replace_scan_shrinks:
  assumes "c \<notin> set rest"
  shows "length (replace_scan (c # rest) [] (a @ (c # rest) @ b)) < length (a @ (c # rest) @ b)"
proof -
  have "length (replace_scan (c # rest) [] (a @ (c # rest) @ b)) =
          length (replace_scan (c # rest) [] a) + length (replace_scan (c # rest) [] b)"
    using replace_scan_occurrence [OF assms, of "[]" a b] by simp
  also have "\<dots> \<le> length a + length b"
    by (intro add_mono replace_scan_length)
  finally show ?thesis by simp
qed

lemma report_command: "ascii ''/report '' = 47 # ascii ''report ''" "47 \<notin> set (ascii ''report '')"
  by (simp_all add: ascii_def)

lemma task_command: "ascii ''/task '' = 47 # ascii ''task ''" "47 \<notin> set (ascii ''task '')"
  by (simp_all add: ascii_def)

lemma py_replace_report:
  "py_replace (a @ ascii ''/report '' @ b) (ascii ''/report '') [] =
     py_replace a (ascii ''/report '') [] @ py_replace b (ascii ''/report '') []"
  "length (py_replace (a @ ascii ''/report '' @ b) (ascii ''/report '') [])
     < length (a @ ascii ''/report '' @ b)"
  using replace_scan_occurrence [OF report_command(2), of "[]" a b]
        replace_scan_shrinks [OF report_command(2), of a b]
  by (simp_all add: py_replace_def report_command(1))

lemma py_replace_task:
  "py_replace (a @ ascii ''/task '' @ b) (ascii ''/task '') [] =
     py_replace a (ascii ''/task '') [] @ py_replace b (ascii ''/task '') []"
  "length (py_replace (a @ ascii ''/task '' @ b) (ascii ''/task '') [])
     < length (a @ ascii ''/task '' @ b)"
  using replace_scan_occurrence [OF task_command(2), of "[]" a b]
        replace_scan_shrinks [OF task_command(2), of a b]
  by (simp_all add: py_replace_def task_command(1))

lemma ensure_user_keeps:
  "reports (snd (ensure_user user_id name s)) = reports s"
  "tasks (snd (ensure_user user_id name s)) = tasks s"
  by (simp_all add: ensure_user_def Let_def split: prod.splits)

lemma append_task_tasks:
  "tasks (snd (append_task uid title now s)) =
     dict_setitem (tasks s) uid
       (dict_get (tasks s) uid [] @ [\<lparr>t_title = title, t_done = False, t_time = now\<rparr>])"
proof (cases "dict_contains (tasks s) uid")
  case True
  then show ?thesis
    by (simp add: append_task_def Let_def dict_getitem_present [of _ _ "[]"]
             split: prod.splits)
next
  case False
  then show ?thesis
    by (simp add: append_task_def Let_def dict_getitem_setitem dict_setitem_twice
                  dict_get_absent split: prod.splits)
qed

lemma report_stores:
  assumes "fst (ensure_user (PyInt (from_id u)) (first_name u) s) = Inr ()"
  shows "dict_get (reports (snd (report u now s))) (str_int (from_id u)) [] =
           dict_get (reports s) (str_int (from_id u)) [] @
           [\<lparr>r_text = py_replace (msg_text u) (ascii ''/report '') [], r_time = now\<rparr>]"
proof -
  obtain s1 where e: "ensure_user (PyInt (from_id u)) (first_name u) s = (Inr (), s1)"
    using assms by (cases "ensure_user (PyInt (from_id u)) (first_name u) s") auto
  then have r1: "reports s1 = reports s"
    using ensure_user_keeps(1) [of "PyInt (from_id u)" "first_name u" s] by simp
  have "snd (report u now s) =
          snd (append_report (str_int (from_id u))
                 (py_replace (msg_text u) (ascii ''/report '') []) now s1)"
    by (simp add: report_def e Let_def split: prod.splits sum.splits)
  then show ?thesis by (simp add: append_report_list r1)
qed

lemma add_task_stores:
  assumes "fst (ensure_user (PyInt (from_id u)) (first_name u) s) = Inr ()"
  shows "dict_get (tasks (snd (add_task u now s))) (str_int (from_id u)) [] =
           dict_get (tasks s) (str_int (from_id u)) [] @
           [\<lparr>t_title = py_replace (msg_text u) (ascii ''/task '') [], t_done = False,
             t_time = now\<rparr>]"
proof -
  obtain s1 where e: "ensure_user (PyInt (from_id u)) (first_name u) s = (Inr (), s1)"
    using assms by (cases "ensure_user (PyInt (from_id u)) (first_name u) s") auto
  then have t1: "tasks s1 = tasks s"
    using ensure_user_keeps(2) [of "PyInt (from_id u)" "first_name u" s] by simp
  have "snd (add_task u now s) =
          snd (append_task (str_int (from_id u))
                 (py_replace (msg_text u) (ascii ''/task '') []) now s1)"
    by (simp add: add_task_def e Let_def split: prod.splits sum.splits)
  then show ?thesis by (simp add: append_task_tasks dict_get_setitem t1)
qed

lemma bare_commands:
  "py_replace (ascii ''/report'') (ascii ''/report '') [] = ascii ''/report''"
  "py_replace (ascii ''/task'') (ascii ''/task '') [] = ascii ''/task''"
  by (simp_all add: py_replace_def ascii_def)

text \<open>
  C10.  When \<open>ensure_user\<close> does not raise, \<open>report\<close> stores the message text with
  \<open>/report \<close> replaced by nothing, and \<open>add_task\<close> the text with \<open>/task \<close> replaced by
  nothing.  The replacement removes the command word with its space wherever the text has
  it, not only in front, so such a text is not stored as it was sent.  The command word
  alone, without the space, is stored as it is.
\<close>

theorem command_word_removed_everywhere:
  "(fst (ensure_user (PyInt (from_id u)) (first_name u) s) = Inr () \<longrightarrow>
      dict_get (reports (snd (report u now s))) (str_int (from_id u)) [] =
        dict_get (reports s) (str_int (from_id u)) [] @
        [\<lparr>r_text = py_replace (msg_text u) (ascii ''/report '') [], r_time = now\<rparr>] \<and>
      dict_get (tasks (snd (add_task u now s))) (str_int (from_id u)) [] =
        dict_get (tasks s) (str_int (from_id u)) [] @
        [\<lparr>t_title = py_replace (msg_text u) (ascii ''/task '') [], t_done = False,
          t_time = now\<rparr>]) \<and>
   py_replace (a @ ascii ''/report '' @ b) (ascii ''/report '') [] =
     py_replace a (ascii ''/report '') [] @ py_replace b (ascii ''/report '') [] \<and>
   py_replace (a @ ascii ''/task '' @ b) (ascii ''/task '') [] =
     py_replace a (ascii ''/task '') [] @ py_replace b (ascii ''/task '') [] \<and>
   py_replace (a @ ascii ''/report '' @ b) (ascii ''/report '') [] \<noteq> a @ ascii ''/report '' @ b \<and>
   py_replace (a @ ascii ''/task '' @ b) (ascii ''/task '') [] \<noteq> a @ ascii ''/task '' @ b \<and>
   py_replace (ascii ''/report'') (ascii ''/report '') [] = ascii ''/report'' \<and>
   py_replace (ascii ''/task'') (ascii ''/task '') [] = ascii ''/task''"
proof -
  have "py_replace (a @ ascii ''/report '' @ b) (ascii ''/report '') [] \<noteq> a @ ascii ''/report '' @ b"
    using py_replace_report(2) [of a b] by auto
  moreover
  have "py_replace (a @ ascii ''/task '' @ b) (ascii ''/task '') [] \<noteq> a @ ascii ''/task '' @ b"
    using py_replace_task(2) [of a b] by auto
  ultimately show ?thesis
    using report_stores [of u s now] add_task_stores [of u s now]
          py_replace_report(1) [of a b] py_replace_task(1) [of a b] bare_commands
    by blast
qed

theorem command_word_removed_everywhere_witness:
  "fst (ensure_user (PyInt (from_id midtext_report)) (first_name midtext_report) three_users) = Inr () \<and>
   map r_text (dict_get (reports (snd (report midtext_report (ascii ''t2'') three_users)))
                 (ascii ''1'') [])
     = [ascii ''did x'', ascii ''note done !''] \<and>
   map t_title (dict_get (tasks (snd (add_task (midtext_report\<lparr>msg_text := ascii ''/task''\<rparr>)
                 (ascii ''t2'') three_users))) (ascii ''1'') [])
     = [ascii ''/task'']"
proof -
  have e: "fst (ensure_user (PyInt (from_id midtext_report)) (first_name midtext_report)
             three_users) = Inr ()"
    by (simp add: ensure_user_def Let_def midtext_report_def three_users_def str_int_1
                  dict_contains_def)
  have e': "fst (ensure_user (PyInt (from_id (midtext_report\<lparr>msg_text := ascii ''/task''\<rparr>)))
                   (first_name (midtext_report\<lparr>msg_text := ascii ''/task''\<rparr>)) three_users) = Inr ()"
    using e by simp
  have i: "str_int (from_id midtext_report) = ascii ''1''"
    by (simp add: midtext_report_def str_int_1)
  have m: "py_replace (msg_text midtext_report) (ascii ''/report '') [] = ascii ''note done !''"
    by (simp add: midtext_report_def py_replace_def ascii_def)
  have old: "dict_get (reports three_users) (ascii ''1'') [] =
               [\<lparr>r_text = ascii ''did x'', r_time = ascii ''t1''\<rparr>]"
            "dict_get (tasks three_users) (ascii ''1'') [] = []"
    by (simp_all add: three_users_def dict_get_def)
  from command_word_removed_everywhere
         [of midtext_report three_users "ascii ''t2''" "ascii ''note ''" "ascii ''done /report !''"] e
  have "dict_get (reports (snd (report midtext_report (ascii ''t2'') three_users)))
          (str_int (from_id midtext_report)) [] =
        dict_get (reports three_users) (str_int (from_id midtext_report)) [] @
        [\<lparr>r_text = py_replace (msg_text midtext_report) (ascii ''/report '') [],
          r_time = ascii ''t2''\<rparr>]"
    by blast
  then have one: "map r_text (dict_get (reports (snd (report midtext_report (ascii ''t2'')
                    three_users))) (ascii ''1'') []) = [ascii ''did x'', ascii ''note done !'']"
    by (simp add: i m old)
  from command_word_removed_everywhere
         [of "midtext_report\<lparr>msg_text := ascii ''/task''\<rparr>" three_users "ascii ''t2''" "[]" "[]"] e'
  have "dict_get (tasks (snd (add_task (midtext_report\<lparr>msg_text := ascii ''/task''\<rparr>)
          (ascii ''t2'') three_users)))
          (str_int (from_id (midtext_report\<lparr>msg_text := ascii ''/task''\<rparr>))) [] =
        dict_get (tasks three_users)
          (str_int (from_id (midtext_report\<lparr>msg_text := ascii ''/task''\<rparr>))) [] @
        [\<lparr>t_title = py_replace (msg_text (midtext_report\<lparr>msg_text := ascii ''/task''\<rparr>))
                      (ascii ''/task '') [],
          t_done = False, t_time = ascii ''t2''\<rparr>]"
    by blast
  then have two: "map t_title (dict_get (tasks (snd (add_task
                    (midtext_report\<lparr>msg_text := ascii ''/task''\<rparr>) (ascii ''t2'') three_users)))
                    (ascii ''1'') []) = [ascii ''/task'']"
    using i by (simp add: old bare_commands)
  from e one two show ?thesis by blast
qed

end
